theory Spec2Isabelle
  imports Main "HOL-Library.Word" "HOL-Library.Monad_Syntax"
begin

section \<open>Strings\<close>

text \<open>
  The to-do list application keeps its list in one slot of the browser's local storage,
  as JSON text, and changes it through one reducer, \<open>todoReducer\<close>. This theory embeds
  the reducer, the handlers that feed it and the two platform functions it depends on
  (\<open>JSON.stringify\<close> and \<open>JSON.parse\<close>, on lists of to-do records), and proves what
  the specification states about them.

  A JavaScript string is a sequence of 16-bit code units; \<open>str\<close> reads an ASCII
  literal as such a sequence.
\<close>

type_synonym jsstring = "16 word list"

definition str :: "string \<Rightarrow> jsstring" where
  "str s = map of_char s"

section \<open>JSON text of a string\<close>

text \<open>
  \<open>QuoteJSONString\<close> is the string case of \<open>JSON.stringify\<close>: the string between
  double quotes, where backspace, tab, line feed, form feed, carriage return, the double
  quote and the backslash are written as their two-character escapes, every other
  control character and every surrogate code unit outside a pair as a \<open>u\<close> escape with
  four lower-case hexadecimal digits, and all other characters as they are.
\<close>

definition hexDigit :: "nat \<Rightarrow> 16 word" where
  "hexDigit n = (if n < 10 then of_nat (48 + n) else of_nat (87 + n))"

definition UnicodeEscape :: "16 word \<Rightarrow> jsstring" where
  "UnicodeEscape c =
     (let n = unat c
      in [0x5C, 0x75, hexDigit (n div 4096), hexDigit (n div 256 mod 16),
          hexDigit (n div 16 mod 16), hexDigit (n mod 16)])"

definition isLeadingSurrogate :: "16 word \<Rightarrow> bool" where
  "isLeadingSurrogate c = (0xD800 \<le> c \<and> c \<le> 0xDBFF)"

definition isTrailingSurrogate :: "16 word \<Rightarrow> bool" where
  "isTrailingSurrogate c = (0xDC00 \<le> c \<and> c \<le> 0xDFFF)"

definition escapeUnit :: "16 word \<Rightarrow> jsstring" where
  "escapeUnit c =
     (if c = 0x08 then [0x5C, 0x62]
      else if c = 0x09 then [0x5C, 0x74]
      else if c = 0x0A then [0x5C, 0x6E]
      else if c = 0x0C then [0x5C, 0x66]
      else if c = 0x0D then [0x5C, 0x72]
      else if c = 0x22 then [0x5C, 0x22]
      else if c = 0x5C then [0x5C, 0x5C]
      else if c < 0x20 \<or> isLeadingSurrogate c \<or> isTrailingSurrogate c then UnicodeEscape c
      else [c])"

fun quoteUnits :: "jsstring \<Rightarrow> jsstring" where
  "quoteUnits [] = []"
| "quoteUnits [c] = escapeUnit c"
| "quoteUnits (c # d # cs) =
     (if isLeadingSurrogate c \<and> isTrailingSurrogate d then c # d # quoteUnits cs
      else escapeUnit c @ quoteUnits (d # cs))"

definition QuoteJSONString :: "jsstring \<Rightarrow> jsstring" where
  "QuoteJSONString s = 0x22 # quoteUnits s @ [0x22]"

text \<open>
  \<open>parseString\<close> is the string case of \<open>JSON.parse\<close>: after the opening quote it
  reads up to the closing quote. A backslash starts one of the eight two-character
  escapes or a \<open>u\<close> escape with four hexadecimal digits of either case; a raw control
  character is a syntax error. The result is the string read and the text after the
  closing quote.
\<close>

definition hexValue :: "16 word \<Rightarrow> nat option" where
  "hexValue c =
     (if 0x30 \<le> c \<and> c \<le> 0x39 then Some (unat c - 48)
      else if 0x61 \<le> c \<and> c \<le> 0x66 then Some (unat c - 87)
      else if 0x41 \<le> c \<and> c \<le> 0x46 then Some (unat c - 55)
      else None)"

definition hex4 :: "16 word \<Rightarrow> 16 word \<Rightarrow> 16 word \<Rightarrow> 16 word \<Rightarrow> 16 word option" where
  "hex4 a b c d =
     (case (hexValue a, hexValue b, hexValue c, hexValue d) of
        (Some h3, Some h2, Some h1, Some h0) \<Rightarrow> Some (of_nat (((h3 * 16 + h2) * 16 + h1) * 16 + h0))
      | _ \<Rightarrow> None)"

definition simpleEscape :: "16 word \<Rightarrow> 16 word option" where
  "simpleEscape e =
     (if e = 0x22 then Some 0x22
      else if e = 0x5C then Some 0x5C
      else if e = 0x2F then Some 0x2F
      else if e = 0x62 then Some 0x08
      else if e = 0x66 then Some 0x0C
      else if e = 0x6E then Some 0x0A
      else if e = 0x72 then Some 0x0D
      else if e = 0x74 then Some 0x09
      else None)"

fun parseChars :: "jsstring \<Rightarrow> (jsstring \<times> jsstring) option" where
  "parseChars [] = None"
| "parseChars (c # cs) =
     (if c = 0x22 then Some ([], cs)
      else if c = 0x5C then
        (case cs of
           [] \<Rightarrow> None
         | e # es \<Rightarrow>
             if e = 0x75 then
               (case es of
                  h3 # h2 # h1 # h0 # rest \<Rightarrow>
                    (case hex4 h3 h2 h1 h0 of
                       None \<Rightarrow> None
                     | Some u \<Rightarrow>
                         (case parseChars rest of
                            None \<Rightarrow> None
                          | Some (s, r) \<Rightarrow> Some (u # s, r)))
                | _ \<Rightarrow> None)
             else
               (case simpleEscape e of
                  None \<Rightarrow> None
                | Some u \<Rightarrow>
                    (case parseChars es of
                       None \<Rightarrow> None
                     | Some (s, r) \<Rightarrow> Some (u # s, r))))
      else if c < 0x20 then None
      else
        (case parseChars cs of
           None \<Rightarrow> None
         | Some (s, r) \<Rightarrow> Some (c # s, r)))"

definition parseString :: "jsstring \<Rightarrow> (jsstring \<times> jsstring) option" where
  "parseString xs =
     (case xs of
        [] \<Rightarrow> None
      | q # cs \<Rightarrow> if q = 0x22 then parseChars cs else None)"

section \<open>Dates\<close>

text \<open>
  A \<open>Date\<close> object holds a time value, the milliseconds since 1970-01-01T00:00:00Z.
  \<open>JSON.stringify\<close> writes it through \<open>toISOString\<close>, as
  \<open>YYYY-MM-DDTHH:mm:ss.sssZ\<close> in UTC, with a sign and six digits for a year outside
  0 to 9999. \<open>YearMonthDay\<close> turns a day number into the civil date.
\<close>

fun pad :: "nat \<Rightarrow> nat \<Rightarrow> jsstring" where
  "pad 0 n = []"
| "pad (Suc k) n = pad k (n div 10) @ [of_nat (48 + n mod 10)]"

definition YearMonthDay :: "int \<Rightarrow> int \<times> int \<times> int" where
  "YearMonthDay day =
     (let z = day + 719468;
          era = z div 146097;
          doe = z mod 146097;
          yoe = (doe - doe div 1460 + doe div 36524 - doe div 146096) div 365;
          doy = doe - (365 * yoe + yoe div 4 - yoe div 100);
          mp = (5 * doy + 2) div 153;
          d = doy - (153 * mp + 2) div 5 + 1;
          m = (if mp < 10 then mp + 3 else mp - 9);
          y = yoe + era * 400
      in (if m \<le> 2 then y + 1 else y, m, d))"

definition toISOString :: "int \<Rightarrow> jsstring" where
  "toISOString t =
     (let (y, m, d) = YearMonthDay (t div 86400000);
          ms = t mod 86400000;
          year = (if 0 \<le> y \<and> y \<le> 9999 then pad 4 (nat y)
                  else (if y < 0 then 0x2D else 0x2B) # pad 6 (nat \<bar>y\<bar>))
      in year @ [0x2D] @ pad 2 (nat m) @ [0x2D] @ pad 2 (nat d) @ [0x54]
           @ pad 2 (nat (ms div 3600000)) @ [0x3A]
           @ pad 2 (nat (ms div 60000 mod 60)) @ [0x3A]
           @ pad 2 (nat (ms div 1000 mod 60)) @ [0x2E]
           @ pad 3 (nat (ms mod 1000)) @ [0x5A])"

section \<open>Data model\<close>

text \<open>
  The source declares \<open>dateCreated\<close> and \<open>lastModified\<close> as \<open>Date\<close>. At run time
  a record built by the reducer holds \<open>Date\<close> objects there, and a record read back by
  \<open>JSON.parse\<close> holds the strings that were stored: \<open>DateValue\<close> has both.

  \<open>PartialTodo\<close> is \<open>Partial<Todo>\<close>, every field optional. \<open>TodoAction\<close> is a
  numeric enum, so an action's \<open>type\<close> is a number at run time and the reducer's
  \<open>switch\<close> has a \<open>default\<close> branch for every other number.
\<close>

datatype DateValue = DateObject int | DateString jsstring

record Todo =
  id' :: jsstring
  content :: jsstring
  isDone :: bool
  dateCreated :: DateValue
  lastModified :: DateValue

record PartialTodo =
  id_opt :: "jsstring option"
  content_opt :: "jsstring option"
  isDone_opt :: "bool option"
  dateCreated_opt :: "DateValue option"
  lastModified_opt :: "DateValue option"

definition CREATE :: nat where "CREATE = 0"
definition UPDATE :: nat where "UPDATE = 1"
definition DELETE :: nat where "DELETE = 2"

record Action =
  data :: "PartialTodo option"
  type' :: nat

section \<open>The persisted text\<close>

text \<open>
  \<open>JSON_stringify\<close> is \<open>JSON.stringify\<close> on a list of to-do records: the members of
  each record in the order the reducer creates them, no white space, a \<open>Date\<close>
  written as the string \<open>toISOString\<close> gives.
\<close>

fun toJSON :: "DateValue \<Rightarrow> jsstring" where
  "toJSON (DateObject t) = toISOString t"
| "toJSON (DateString s) = s"

definition stringifyTodo :: "Todo \<Rightarrow> jsstring" where
  \<open>stringifyTodo todo =
     str ''{"id":'' @ QuoteJSONString (id' todo)
     @ str '',"content":'' @ QuoteJSONString (content todo)
     @ str '',"isDone":'' @ (if isDone todo then str ''true'' else str ''false'')
     @ str '',"dateCreated":'' @ QuoteJSONString (toJSON (dateCreated todo))
     @ str '',"lastModified":'' @ QuoteJSONString (toJSON (lastModified todo))
     @ str ''}''\<close>

fun JSON_stringify :: "Todo list \<Rightarrow> jsstring" where
  "JSON_stringify [] = str ''[]''"
| "JSON_stringify (todo # todos) =
     str ''['' @ stringifyTodo todo
     @ concat (map (\<lambda>t. 0x2C # stringifyTodo t) todos) @ str '']''"

text \<open>
  \<open>JSON_parse\<close> is \<open>JSON.parse\<close> read at the type the source gives its result,
  \<open>Todo[]\<close>. It reads the texts that \<open>JSON.stringify\<close> writes for such a list,
  with any of the string escapes, and gives the timestamps back as the strings they are
  in the text. \<open>JSON.parse\<close> itself reads more (white space, members in another
  order, values of other shapes); nothing is claimed here about such a text: the model
  reports it like a text that is not JSON, as a \<open>SyntaxError\<close>, which the source
  does not catch, and every theorem about the reducer assumes a store that was read.
\<close>

datatype error = SyntaxError

definition expect :: "jsstring \<Rightarrow> jsstring \<Rightarrow> jsstring option" where
  "expect p xs = (if take (length p) xs = p then Some (drop (length p) xs) else None)"

definition parseBoolean :: "jsstring \<Rightarrow> (bool \<times> jsstring) option" where
  "parseBoolean xs =
     (case expect (str ''true'') xs of
        Some r \<Rightarrow> Some (True, r)
      | None \<Rightarrow>
          (case expect (str ''false'') xs of
             Some r \<Rightarrow> Some (False, r)
           | None \<Rightarrow> None))"

definition parseTodo :: "jsstring \<Rightarrow> (Todo \<times> jsstring) option" where
  \<open>parseTodo xs = do {
     r0 \<leftarrow> expect (str ''{"id":'') xs;
     (i, r1) \<leftarrow> parseString r0;
     r2 \<leftarrow> expect (str '',"content":'') r1;
     (c, r3) \<leftarrow> parseString r2;
     r4 \<leftarrow> expect (str '',"isDone":'') r3;
     (b, r5) \<leftarrow> parseBoolean r4;
     r6 \<leftarrow> expect (str '',"dateCreated":'') r5;
     (dc, r7) \<leftarrow> parseString r6;
     r8 \<leftarrow> expect (str '',"lastModified":'') r7;
     (lm, r9) \<leftarrow> parseString r8;
     r10 \<leftarrow> expect (str ''}'') r9;
     Some (\<lparr>id' = i, content = c, isDone = b,
            dateCreated = DateString dc, lastModified = DateString lm\<rparr>, r10)
   }\<close>

text \<open>
  Every parser consumes input, so the loop over the elements of the array terminates.
\<close>

lemma parseChars_shorter:
  "parseChars xs = Some (s, r) \<Longrightarrow> length r < length xs"
proof (induction xs arbitrary: s r rule: length_induct)
  case (1 xs)
  have IH: "length r' < length ys" if "length ys < length xs" "parseChars ys = Some (s', r')"
    for ys s' r'
    using 1(1) that by blast
  show ?case
  proof (cases xs)
    case Nil
    with 1(2) show ?thesis by simp
  next
    case (Cons c cs)
    show ?thesis
      using 1(2) Cons
      by (auto split: if_splits list.splits option.splits prod.splits dest!: IH [rotated])
  qed
qed

lemma parseString_shorter:
  "parseString xs = Some (s, r) \<Longrightarrow> length r < length xs"
  by (auto simp: parseString_def split: list.splits if_splits dest: parseChars_shorter)

lemma expect_shorter: "expect p xs = Some r \<Longrightarrow> length r \<le> length xs"
  by (auto simp: expect_def split: if_splits)

lemma parseBoolean_shorter: "parseBoolean xs = Some (b, r) \<Longrightarrow> length r \<le> length xs"
  by (auto simp: parseBoolean_def split: option.splits dest: expect_shorter)

lemma parseTodo_shorter:
  assumes "parseTodo xs = Some (todo, r)"
  shows "length r < length xs"
  using assms unfolding parseTodo_def
  by (auto simp: bind_eq_Some_conv
           dest!: expect_shorter parseString_shorter parseBoolean_shorter)

function parseElements :: "jsstring \<Rightarrow> (Todo list \<times> jsstring) option" where
  "parseElements [] = None"
| "parseElements (c # cs) =
     (if c = 0x5D then Some ([], cs)
      else if c = 0x2C then
        (case parseTodo cs of
           None \<Rightarrow> None
         | Some (todo, r) \<Rightarrow>
             (case parseElements r of
                None \<Rightarrow> None
              | Some (todos, r') \<Rightarrow> Some (todo # todos, r')))
      else None)"
  by pat_completeness auto
termination
proof (relation "measure length")
  show "wf (measure length)"
    by simp
next
  fix c :: "16 word" and cs x2 todo r
  assume "parseTodo cs = Some x2" "(todo, r) = x2"
  then have "length r < length cs"
    using parseTodo_shorter [of cs todo r] by simp
  then show "(r, c # cs) \<in> measure length"
    by simp
qed

definition parseArray :: "jsstring \<Rightarrow> (Todo list \<times> jsstring) option" where
  "parseArray xs =
     (case xs of
        [] \<Rightarrow> None
      | c # cs \<Rightarrow>
          if c \<noteq> 0x5B then None
          else
            (case cs of
               [] \<Rightarrow> None
             | d # ds \<Rightarrow>
                 if d = 0x5D then Some ([], ds)
                 else
                   (case parseTodo cs of
                      None \<Rightarrow> None
                    | Some (todo, r) \<Rightarrow>
                        (case parseElements r of
                           None \<Rightarrow> None
                         | Some (todos, r') \<Rightarrow> Some (todo # todos, r')))))"

definition JSON_parse :: "jsstring \<Rightarrow> error + Todo list" where
  "JSON_parse text =
     (case parseArray text of
        None \<Rightarrow> Inl SyntaxError
      | Some (todos, r) \<Rightarrow> if r = [] then Inr todos else Inl SyntaxError)"

text \<open>
  \<open>asStored\<close> is a record as it comes back from storage: the same fields, each
  timestamp as the string that was written for it.
\<close>

definition asStored :: "Todo \<Rightarrow> Todo" where
  "asStored todo =
     todo\<lparr>dateCreated := DateString (toJSON (dateCreated todo)),
          lastModified := DateString (toJSON (lastModified todo))\<rparr>"

section \<open>The environment\<close>

text \<open>
  The reducer reads and writes local storage, reads the clock (\<open>new Date()\<close>) and
  draws identifiers (\<open>uuidv4()\<close>). The \<open>world\<close> holds the storage and what the clock
  and the generator will answer: \<open>clock w n\<close> is the answer to the \<open>n\<close>-th reading of
  the clock, \<open>uuids w n\<close> the \<open>n\<close>-th identifier drawn, and the counters \<open>ticks\<close>
  and \<open>draws\<close> say how many have been consumed. Storage failures (a full or disabled
  store) are not modelled.

  \<open>loadTodos\<close> is the expression \<open>JSON.parse(localStorage.getItem('todos') ?? '[]')\<close>,
  which the component uses for its initial state and the reducer at every call.
\<close>

record world =
  localStorage :: "jsstring \<rightharpoonup> jsstring"
  clock :: "nat \<Rightarrow> int"
  ticks :: nat
  uuids :: "nat \<Rightarrow> jsstring"
  draws :: nat

definition getItem :: "world \<Rightarrow> jsstring \<Rightarrow> jsstring option" where
  "getItem w key = localStorage w key"

definition setItem :: "world \<Rightarrow> jsstring \<Rightarrow> jsstring \<Rightarrow> world" where
  "setItem w key text = w\<lparr>localStorage := (localStorage w)(key \<mapsto> text)\<rparr>"

definition uuidv4 :: "world \<Rightarrow> jsstring \<times> world" where
  "uuidv4 w = (uuids w (draws w), w\<lparr>draws := Suc (draws w)\<rparr>)"

definition new_Date :: "world \<Rightarrow> DateValue \<times> world" where
  "new_Date w = (DateObject (clock w (ticks w)), w\<lparr>ticks := Suc (ticks w)\<rparr>)"

definition loadTodos :: "world \<Rightarrow> error + Todo list" where
  "loadTodos w =
     JSON_parse (case getItem w (str ''todos'') of None \<Rightarrow> str ''[]'' | Some text \<Rightarrow> text)"

section \<open>The reducer\<close>

text \<open>
  \<open>findIndex\<close> is \<open>Array.prototype.findIndex\<close>: the first position that satisfies
  the predicate, or \<open>-1\<close>. The reducer follows the source: the stored list is parsed
  before the \<open>switch\<close>, \<open>CREATE\<close> works on the state it is given, \<open>DELETE\<close> and
  \<open>UPDATE\<close> on the stored list. \<open>updated\<close> names the three assignments of the
  \<open>UPDATE\<close> branch.
\<close>

definition payload :: "Action \<Rightarrow> PartialTodo" where
  "payload action =
     (case data action of
        None \<Rightarrow> \<lparr>id_opt = None, content_opt = None, isDone_opt = None,
                  dateCreated_opt = None, lastModified_opt = None\<rparr>
      | Some d \<Rightarrow> d)"

fun findIndex :: "('a \<Rightarrow> bool) \<Rightarrow> 'a list \<Rightarrow> int" where
  "findIndex P [] = - 1"
| "findIndex P (x # xs) =
     (if P x then 0 else (let i = findIndex P xs in if i < 0 then - 1 else i + 1))"

definition todoReducer :: "world \<Rightarrow> Todo list \<Rightarrow> Action \<Rightarrow> error + (Todo list \<times> world)" where
  "todoReducer w state action =
     (case loadTodos w of
        Inl e \<Rightarrow> Inl e
      | Inr todos \<Rightarrow>
          let id = id_opt (payload action);
              content = content_opt (payload action);
              isDone = isDone_opt (payload action)
          in
            if type' action = CREATE then
              (case content of
                 None \<Rightarrow> Inr (state, w)
               | Some text \<Rightarrow>
                   if text = [] then Inr (state, w)
                   else
                     let (uuid, w1) = uuidv4 w;
                         (created, w2) = new_Date w1;
                         (modified, w3) = new_Date w2;
                         newTodo = \<lparr>id' = uuid, content = text, isDone = False,
                                    dateCreated = created, lastModified = modified\<rparr>
                     in Inr (state @ [newTodo],
                             setItem w3 (str ''todos'') (JSON_stringify (state @ [newTodo]))))
            else if type' action = DELETE then
              let filtered = filter (\<lambda>todo. Some (id' todo) \<noteq> id) todos
              in Inr (filtered, setItem w (str ''todos'') (JSON_stringify filtered))
            else if type' action = UPDATE then
              let index = findIndex (\<lambda>todo. Some (id' todo) = id) todos
              in
                if index < 0 then Inr (state, w)
                else
                  let todo = todos ! nat index;
                      todo1 = (case content of
                                 None \<Rightarrow> todo
                               | Some text \<Rightarrow> if text = [] then todo else todo\<lparr>content := text\<rparr>);
                      todo2 = (case isDone of
                                 None \<Rightarrow> todo1
                               | Some flag \<Rightarrow> todo1\<lparr>isDone := flag\<rparr>);
                      (modified, w1) = new_Date w;
                      todo3 = todo2\<lparr>lastModified := modified\<rparr>;
                      todos' = todos[nat index := todo3]
                  in Inr (todos', setItem w1 (str ''todos'') (JSON_stringify todos'))
            else Inr (state, w))"

definition updated :: "Todo \<Rightarrow> PartialTodo \<Rightarrow> DateValue \<Rightarrow> Todo" where
  "updated todo patch modified =
     todo\<lparr>content := (case content_opt patch of
                        None \<Rightarrow> content todo
                      | Some text \<Rightarrow> if text = [] then content todo else text),
          isDone := (case isDone_opt patch of None \<Rightarrow> isDone todo | Some flag \<Rightarrow> flag),
          lastModified := modified\<rparr>"

text \<open>
  \<open>useReducer\<close> applies each dispatched action to the state the previous one returned.
  \<open>deleteTodo\<close> and \<open>updateTodo\<close> are the actions the component's callbacks of these
  names dispatch.
\<close>

fun dispatchAll :: "world \<Rightarrow> Todo list \<Rightarrow> Action list \<Rightarrow> error + (Todo list \<times> world)" where
  "dispatchAll w state [] = Inr (state, w)"
| "dispatchAll w state (action # actions) =
     (case todoReducer w state action of
        Inl e \<Rightarrow> Inl e
      | Inr (state', w') \<Rightarrow> dispatchAll w' state' actions)"

definition deleteTodo :: "jsstring \<Rightarrow> Action" where
  "deleteTodo i =
     \<lparr>data = Some \<lparr>id_opt = Some i, content_opt = None, isDone_opt = None,
                    dateCreated_opt = None, lastModified_opt = None\<rparr>,
      type' = DELETE\<rparr>"

definition updateTodo :: "jsstring \<Rightarrow> PartialTodo \<Rightarrow> Action" where
  "updateTodo i patch =
     \<lparr>data = Some (patch\<lparr>id_opt := (case id_opt patch of None \<Rightarrow> Some i | Some j \<Rightarrow> Some j)\<rparr>),
      type' = UPDATE\<rparr>"

text \<open>
  \<open>handleSubmit\<close> is the form's submit handler. Its third argument is the input
  element's value, \<open>None\<close> when the reference is not attached; the third component of
  the result is the value afterwards. \<open>trim\<close> is \<open>String.prototype.trim\<close>, which
  removes the white space and line terminators of ECMAScript at both ends, and
  \<open>createAction\<close> is the action the handler dispatches.
\<close>

definition isWhiteSpace :: "16 word \<Rightarrow> bool" where
  "isWhiteSpace c =
     (c = 0x09 \<or> c = 0x0A \<or> c = 0x0B \<or> c = 0x0C \<or> c = 0x0D \<or> c = 0x20 \<or> c = 0xA0
      \<or> c = 0x1680 \<or> (0x2000 \<le> c \<and> c \<le> 0x200A) \<or> c = 0x2028 \<or> c = 0x2029
      \<or> c = 0x202F \<or> c = 0x205F \<or> c = 0x3000 \<or> c = 0xFEFF)"

definition trim :: "jsstring \<Rightarrow> jsstring" where
  "trim s = rev (dropWhile isWhiteSpace (rev (dropWhile isWhiteSpace s)))"

definition createAction :: "jsstring \<Rightarrow> Action" where
  "createAction c =
     \<lparr>data = Some \<lparr>id_opt = None, content_opt = Some c, isDone_opt = None,
                    dateCreated_opt = None, lastModified_opt = None\<rparr>,
      type' = CREATE\<rparr>"

definition handleSubmit ::
  "world \<Rightarrow> Todo list \<Rightarrow> jsstring option \<Rightarrow> error + (Todo list \<times> world \<times> jsstring option)" where
  "handleSubmit w todos inputRef =
     (case inputRef of
        None \<Rightarrow> Inr (todos, w, inputRef)
      | Some v \<Rightarrow>
          let c = trim v
          in
            if c = [] then Inr (todos, w, inputRef)
            else
              (case todoReducer w todos (createAction c) of
                 Inl e \<Rightarrow> Inl e
               | Inr (todos', w') \<Rightarrow> Inr (todos', w', Some [])))"

section \<open>Concrete inputs\<close>

text \<open>
  Two records as they are read from storage, one as \<open>CREATE\<close> builds it, and a
  browser whose storage slot holds the given text, whose clock starts at
  2023-11-14T22:13:20.000Z and advances by one millisecond at every reading, and whose
  generator returns one fixed identifier.
\<close>

definition milk :: Todo where
  "milk = \<lparr>id' = str ''110ec58a-a0f2-4ac4-8393-c866d813b8d1'', content = str ''Buy milk'',
           isDone = False,
           dateCreated = DateString (str ''2023-11-14T22:13:20.000Z''),
           lastModified = DateString (str ''2023-11-14T22:13:20.000Z'')\<rparr>"

definition eggs :: Todo where
  "eggs = \<lparr>id' = str ''7c9e6679-7425-40de-944b-e07fc1f90ae7'', content = str ''Buy eggs'',
           isDone = True,
           dateCreated = DateString (str ''2023-11-14T22:10:00.000Z''),
           lastModified = DateString (str ''2023-11-14T22:12:00.000Z'')\<rparr>"

definition fresh :: Todo where
  "fresh = \<lparr>id' = str ''3f2504e0-4f89-41d3-9a0c-0305e82c3301'', content = str ''Buy eggs'',
            isDone = False,
            dateCreated = DateObject 1700000000000,
            lastModified = DateObject 1700000000001\<rparr>"

definition browser :: "jsstring option \<Rightarrow> world" where
  "browser slot =
     \<lparr>localStorage = (\<lambda>key. if key = str ''todos'' then slot else None),
      clock = (\<lambda>n. 1700000000000 + int n), ticks = 0,
      uuids = (\<lambda>n. str ''3f2504e0-4f89-41d3-9a0c-0305e82c3301''), draws = 0\<rparr>"

section \<open>Reading back a quoted string\<close>

lemma hexValue_hexDigit: "n < 16 \<Longrightarrow> hexValue (hexDigit n) = Some n"
proof -
  have "\<forall>k\<in>set [0..<16]. hexValue (hexDigit k) = Some k"
    by (simp add: upt_rec hexValue_def hexDigit_def)
  then show "n < 16 \<Longrightarrow> hexValue (hexDigit n) = Some n"
    by simp
qed

lemma nibbles_nat:
  "((n div 4096 * 16 + n div 256 mod 16) * 16 + n div 16 mod 16) * 16 + n mod 16 = (n::nat)"
proof -
  have "n div 4096 = n div 256 div 16" "n div 256 = n div 16 div 16"
    by (simp_all add: div_mult2_eq)
  moreover have "n div 256 div 16 * 16 + n div 256 mod 16 = n div 256"
    "n div 16 div 16 * 16 + n div 16 mod 16 = n div 16" "n div 16 * 16 + n mod 16 = n"
    by (rule div_mult_mod_eq)+
  ultimately show ?thesis
    by (simp only:)
qed

lemma hex4_UnicodeEscape:
  "hex4 (hexDigit (unat c div 4096)) (hexDigit (unat c div 256 mod 16))
        (hexDigit (unat c div 16 mod 16)) (hexDigit (unat c mod 16)) = Some c"
proof -
  let ?n = "unat c"
  have "?n < 65536"
    using unsigned_less [of c] by simp
  then have "?n div 4096 < 16"
    by simp
  then have "hex4 (hexDigit (?n div 4096)) (hexDigit (?n div 256 mod 16))
        (hexDigit (?n div 16 mod 16)) (hexDigit (?n mod 16))
      = Some (of_nat (((?n div 4096 * 16 + ?n div 256 mod 16) * 16 + ?n div 16 mod 16) * 16 + ?n mod 16))"
    unfolding hex4_def by (simp only: hexValue_hexDigit mod_less_divisor zero_less_numeral prod.case option.case)
  then show ?thesis
    by (simp only: nibbles_nat) simp
qed

lemma parseChars_UnicodeEscape:
  "parseChars (UnicodeEscape c @ xs) =
     (case parseChars xs of None \<Rightarrow> None | Some (s, r) \<Rightarrow> Some (c # s, r))"
  by (simp add: UnicodeEscape_def Let_def hex4_UnicodeEscape)

lemma parseChars_literal:
  "c \<noteq> 0x22 \<Longrightarrow> c \<noteq> 0x5C \<Longrightarrow> \<not> c < 0x20 \<Longrightarrow>
   parseChars (c # xs) =
     (case parseChars xs of None \<Rightarrow> None | Some (s, r) \<Rightarrow> Some (c # s, r))"
  by simp


lemma parseChars_simple_escape:
  "simpleEscape e = Some u \<Longrightarrow>
   parseChars (0x5C # e # xs) =
     (case parseChars xs of None \<Rightarrow> None | Some (s, r) \<Rightarrow> Some (u # s, r))"
  by (auto simp: simpleEscape_def split: if_splits)

lemma parseChars_escapeUnit:
  "parseChars (escapeUnit c @ xs) =
     (case parseChars xs of None \<Rightarrow> None | Some (s, r) \<Rightarrow> Some (c # s, r))"
proof -
  consider "c = 0x08" | "c = 0x09" | "c = 0x0A" | "c = 0x0C" | "c = 0x0D" | "c = 0x22" | "c = 0x5C"
    | "c \<notin> {0x08, 0x09, 0x0A, 0x0C, 0x0D, 0x22, 0x5C}"
        "c < 0x20 \<or> isLeadingSurrogate c \<or> isTrailingSurrogate c"
    | "c \<notin> {0x08, 0x09, 0x0A, 0x0C, 0x0D, 0x22, 0x5C}"
        "\<not> (c < 0x20 \<or> isLeadingSurrogate c \<or> isTrailingSurrogate c)"
    by blast
  then show ?thesis
  proof cases
    case 8
    then have "escapeUnit c = UnicodeEscape c"
      by (simp add: escapeUnit_def)
    then show ?thesis
      by (simp only: parseChars_UnicodeEscape)
  next
    case 9
    then have "escapeUnit c = [c]" "c \<noteq> 0x22" "c \<noteq> 0x5C" "\<not> c < 0x20"
      by (simp_all add: escapeUnit_def)
    then show ?thesis
      using parseChars_literal [of c xs] by simp
  qed (auto simp add: escapeUnit_def simpleEscape_def)
qed


lemma surrogate_literal:
  "isLeadingSurrogate c \<or> isTrailingSurrogate c \<Longrightarrow> c \<noteq> 0x22 \<and> c \<noteq> 0x5C \<and> \<not> c < 0x20"
  by (auto simp: isLeadingSurrogate_def isTrailingSurrogate_def word_le_nat_alt word_less_nat_alt)

lemma parseChars_quoteUnits:
  "parseChars (quoteUnits s @ 0x22 # rest) = Some (s, rest)"
proof (induction s rule: quoteUnits.induct)
  case 1
  show ?case by simp
next
  case (2 c)
  show ?case
    using parseChars_escapeUnit [of c "0x22 # rest"] by simp
next
  case (3 c d cs)
  show ?case
  proof (cases "isLeadingSurrogate c \<and> isTrailingSurrogate d")
    case True
    then have "c \<noteq> 0x22 \<and> c \<noteq> 0x5C \<and> \<not> c < 0x20" "d \<noteq> 0x22 \<and> d \<noteq> 0x5C \<and> \<not> d < 0x20"
      using surrogate_literal by blast+
    with True 3 show ?thesis
      by (simp add: parseChars_literal del: parseChars.simps)
  next
    case False
    then have "quoteUnits (c # d # cs) = escapeUnit c @ quoteUnits (d # cs)"
      by auto
    with False 3 show ?thesis
      by (simp add: parseChars_escapeUnit del: parseChars.simps quoteUnits.simps)
  qed
qed

lemma parseString_QuoteJSONString:
  "parseString (QuoteJSONString s @ rest) = Some (s, rest)"
  by (simp add: parseString_def QuoteJSONString_def parseChars_quoteUnits del: parseChars.simps)

section \<open>Reading back a stored list\<close>

lemma expect_append: "expect p (p @ xs) = Some xs"
  by (simp add: expect_def)

lemma parseBoolean_true: "parseBoolean (str ''true'' @ xs) = Some (True, xs)"
  by (simp add: parseBoolean_def expect_append)

lemma parseBoolean_false: "parseBoolean (str ''false'' @ xs) = Some (False, xs)"
  by (simp add: parseBoolean_def expect_def str_def)

lemma parseTodo_stringifyTodo:
  "parseTodo (stringifyTodo todo @ rest) = Some (asStored todo, rest)"
  unfolding parseTodo_def stringifyTodo_def
  by (simp add: expect_append parseString_QuoteJSONString parseBoolean_true
        parseBoolean_false asStored_def)

lemma parseElements_stringify:
  "parseElements (concat (map (\<lambda>t. 0x2C # stringifyTodo t) todos) @ 0x5D # rest)
     = Some (map asStored todos, rest)"
  by (induction todos) (simp_all add: parseTodo_stringifyTodo)

lemma stringifyTodo_brace: "\<exists>ys. stringifyTodo todo = 0x7B # ys"
  by (simp add: stringifyTodo_def str_def)

lemma parseArray_stringify:
  "parseArray (JSON_stringify todos @ rest) = Some (map asStored todos, rest)"
proof (cases todos)
  case Nil
  then show ?thesis
    by (simp add: parseArray_def str_def)
next
  case (Cons todo ts)
  obtain ys where ys: "stringifyTodo todo = 0x7B # ys"
    using stringifyTodo_brace by blast
  let ?tail = "concat (map (\<lambda>t. 0x2C # stringifyTodo t) ts) @ 0x5D # rest"
  have "parseArray (0x5B # stringifyTodo todo @ ?tail) = Some (asStored todo # map asStored ts, rest)"
    using parseTodo_stringifyTodo [of todo ?tail] parseElements_stringify [of ts rest]
    by (simp add: parseArray_def ys)
  then show ?thesis
    using Cons by (simp add: str_def)
qed

lemma JSON_parse_stringify:
  "JSON_parse (JSON_stringify todos) = Inr (map asStored todos)"
  using parseArray_stringify [of todos "[]"] by (simp add: JSON_parse_def)

lemma asStored_idem: "asStored (asStored todo) = asStored todo"
  by (simp add: asStored_def)

lemma parseTodo_stored: "parseTodo xs = Some (todo, r) \<Longrightarrow> asStored todo = todo"
  unfolding parseTodo_def
  by (auto simp: bind_eq_Some_conv asStored_def)

lemma parseElements_stored:
  "parseElements xs = Some (todos, r) \<Longrightarrow> map asStored todos = todos"
proof (induction xs arbitrary: todos r rule: parseElements.induct)
  case 1
  then show ?case by simp
next
  case (2 c cs)
  show ?case
  proof (cases "c = 0x5D")
    case True
    with "2.prems" show ?thesis by simp
  next
    case False
    with "2.prems" obtain todo r1 ts where
      a: "c = 0x2C" "parseTodo cs = Some (todo, r1)"
         "parseElements r1 = Some (ts, r)" "todos = todo # ts"
      by (auto split: if_splits option.splits)
    have "map asStored ts = ts"
      using "2.IH" [of "(todo, r1)" todo r1 ts r] False a by simp
    moreover have "asStored todo = todo"
      using a(2) by (rule parseTodo_stored)
    ultimately show ?thesis
      using a(4) by simp
  qed
qed

lemma parseArray_stored:
  assumes "parseArray xs = Some (todos, r)"
  shows "map asStored todos = todos"
proof (cases "todos = []")
  case True
  then show ?thesis by simp
next
  case False
  with assms obtain c cs todo r1 ts where
    a: "xs = c # cs" "parseTodo cs = Some (todo, r1)"
       "parseElements r1 = Some (ts, r)" "todos = todo # ts"
    by (auto simp: parseArray_def split: list.splits if_splits option.splits)
  have "asStored todo = todo"
    using a(2) by (rule parseTodo_stored)
  moreover have "map asStored ts = ts"
    using a(3) by (rule parseElements_stored)
  ultimately show ?thesis
    using a(4) by simp
qed

lemma JSON_parse_stored:
  "JSON_parse text = Inr todos \<Longrightarrow> map asStored todos = todos"
  by (auto simp: JSON_parse_def split: option.splits if_splits intro: parseArray_stored)

lemma stringifyTodo_asStored: "stringifyTodo (asStored todo) = stringifyTodo todo"
  by (simp add: stringifyTodo_def asStored_def)

lemma JSON_stringify_asStored: "JSON_stringify (map asStored todos) = JSON_stringify todos"
  by (cases todos) (simp_all add: stringifyTodo_asStored comp_def)

section \<open>The branches of the reducer\<close>

lemma getItem_setItem: "getItem (setItem w key text) key = Some text"
  by (simp add: getItem_def setItem_def)

lemma loadTodos_setItem:
  "loadTodos (setItem w (str ''todos'') (JSON_stringify todos)) = Inr (map asStored todos)"
  by (simp add: loadTodos_def getItem_setItem JSON_parse_stringify)

lemma loadTodos_stored: "loadTodos w = Inr todos \<Longrightarrow> map asStored todos = todos"
  unfolding loadTodos_def by (rule JSON_parse_stored)

lemma setItem_counters:
  "setItem (w\<lparr>ticks := n\<rparr>) key text = (setItem w key text)\<lparr>ticks := n\<rparr>"
  "setItem (w\<lparr>draws := m\<rparr>) key text = (setItem w key text)\<lparr>draws := m\<rparr>"
  by (simp_all add: setItem_def)

lemma loadTodos_counters:
  "loadTodos (w\<lparr>ticks := n\<rparr>) = loadTodos w"
  "loadTodos (w\<lparr>draws := m\<rparr>) = loadTodos w"
  by (simp_all add: loadTodos_def getItem_def)

lemma setItem_twice: "setItem (setItem w key text) key text = setItem w key text"
  by (simp add: setItem_def)

lemma findIndex_bounds: "- 1 \<le> findIndex P xs \<and> findIndex P xs < int (length xs)"
  by (induction xs) (auto simp: Let_def)

lemma findIndex_miss: "(findIndex P xs < 0) = (\<forall>x\<in>set xs. \<not> P x)"
  using findIndex_bounds [of P] by (induction xs) (auto simp: Let_def)

lemma findIndex_hit:
  "0 \<le> findIndex P xs \<Longrightarrow>
   P (xs ! nat (findIndex P xs)) \<and> (\<forall>j<nat (findIndex P xs). \<not> P (xs ! j))"
proof (induction xs)
  case Nil
  then show ?case by simp
next
  case (Cons x xs)
  show ?case
  proof (cases "P x")
    case True
    then show ?thesis by simp
  next
    case False
    with Cons.prems have nonneg: "0 \<le> findIndex P xs"
      by (auto simp: Let_def split: if_splits)
    then have step: "findIndex P (x # xs) = findIndex P xs + 1"
      using False by (simp add: Let_def)
    have "nat (findIndex P xs + 1) = Suc (nat (findIndex P xs))"
      using nonneg by simp
    with Cons.IH [OF nonneg] False step show ?thesis
      by (auto simp: less_Suc_eq_0_disj)
  qed
qed

lemma ids_asStored: "map id' (map asStored todos) = map id' todos"
  by (simp add: asStored_def)

lemma todoReducer_create_noop:
  assumes "loadTodos w = Inr todos" "type' action = CREATE"
    and "content_opt (payload action) = None \<or> content_opt (payload action) = Some []"
  shows "todoReducer w state action = Inr (state, w)"
  using assms by (auto simp: todoReducer_def)

lemma todoReducer_create:
  assumes "loadTodos w = Inr todos" "type' action = CREATE"
    and "content_opt (payload action) = Some text" "text \<noteq> []"
  shows "todoReducer w state action =
     (let newTodo = \<lparr>id' = uuids w (draws w), content = text, isDone = False,
                      dateCreated = DateObject (clock w (ticks w)),
                      lastModified = DateObject (clock w (Suc (ticks w)))\<rparr>
      in Inr (state @ [newTodo],
              setItem (w\<lparr>draws := Suc (draws w), ticks := Suc (Suc (ticks w))\<rparr>)
                (str ''todos'') (JSON_stringify (state @ [newTodo]))))"
  using assms by (simp add: todoReducer_def uuidv4_def new_Date_def Let_def)

lemma todoReducer_delete:
  assumes "loadTodos w = Inr todos" "type' action = DELETE"
  shows "todoReducer w state action =
     (let filtered = filter (\<lambda>todo. Some (id' todo) \<noteq> id_opt (payload action)) todos
      in Inr (filtered, setItem w (str ''todos'') (JSON_stringify filtered)))"
  using assms by (simp add: todoReducer_def CREATE_def DELETE_def)

lemma todoReducer_update_miss:
  assumes "loadTodos w = Inr todos" "type' action = UPDATE"
    and "\<forall>todo\<in>set todos. Some (id' todo) \<noteq> id_opt (payload action)"
  shows "todoReducer w state action = Inr (state, w)"
proof -
  have "findIndex (\<lambda>todo. Some (id' todo) = id_opt (payload action)) todos < 0"
    using assms(3) by (simp add: findIndex_miss)
  then show ?thesis
    using assms(1,2) by (simp add: todoReducer_def CREATE_def DELETE_def UPDATE_def)
qed

lemma todoReducer_update_hit:
  assumes "loadTodos w = Inr todos" "type' action = UPDATE"
    and "0 \<le> findIndex (\<lambda>todo. Some (id' todo) = id_opt (payload action)) todos"
  shows "todoReducer w state action =
     (let k = nat (findIndex (\<lambda>todo. Some (id' todo) = id_opt (payload action)) todos);
          todos' = todos[k := updated (todos ! k) (payload action) (DateObject (clock w (ticks w)))]
      in Inr (todos', setItem (w\<lparr>ticks := Suc (ticks w)\<rparr>) (str ''todos'') (JSON_stringify todos')))"
  using assms
  by (simp add: todoReducer_def CREATE_def DELETE_def UPDATE_def new_Date_def Let_def updated_def
           split: option.splits)

lemma todoReducer_other:
  assumes "loadTodos w = Inr todos"
    and "type' action \<noteq> CREATE" "type' action \<noteq> DELETE" "type' action \<noteq> UPDATE"
  shows "todoReducer w state action = Inr (state, w)"
  using assms by (simp add: todoReducer_def)

lemma loadTodos_browser_empty: "loadTodos (browser None) = Inr []"
  by (simp add: loadTodos_def getItem_def browser_def JSON_parse_def parseArray_def str_def)

lemma loadTodos_browser:
  "loadTodos (browser (Some (JSON_stringify todos))) = Inr (map asStored todos)"
  by (simp add: loadTodos_def getItem_def browser_def JSON_parse_stringify)

lemma stored_examples: "asStored milk = milk" "asStored eggs = eggs"
  by (simp_all add: asStored_def milk_def eggs_def)

lemma ids_examples: "id' milk \<noteq> id' eggs"
  by (simp add: milk_def eggs_def str_def)

lemma findIndex_found: "(0 \<le> findIndex P xs) = (\<exists>x\<in>set xs. P x)"
  using findIndex_miss [of P xs] by auto

lemma id_updated: "id' (updated todo patch modified) = id' todo"
  by (simp add: updated_def)

lemma ids_list_update:
  "k < length todos \<Longrightarrow> id' todo = id' (todos ! k) \<Longrightarrow> map id' (todos[k := todo]) = map id' todos"
  by (simp add: map_update list_update_same_conv)

lemma todoReducer_update_ids:
  assumes "loadTodos w = Inr todos" "type' action = UPDATE"
    and "0 \<le> findIndex (\<lambda>todo. Some (id' todo) = id_opt (payload action)) todos"
  shows "\<exists>todos' w'. todoReducer w state action = Inr (todos', w')
           \<and> getItem w' (str ''todos'') = Some (JSON_stringify todos')
           \<and> loadTodos w' = Inr (map asStored todos')
           \<and> map id' todos' = map id' todos"
proof -
  let ?k = "nat (findIndex (\<lambda>todo. Some (id' todo) = id_opt (payload action)) todos)"
  let ?todos' = "todos[?k := updated (todos ! ?k) (payload action) (DateObject (clock w (ticks w)))]"
  let ?w' = "setItem (w\<lparr>ticks := Suc (ticks w)\<rparr>) (str ''todos'') (JSON_stringify ?todos')"
  have "todoReducer w state action = Inr (?todos', ?w')"
    using todoReducer_update_hit [OF assms, of state] by (simp add: Let_def)
  moreover have "?k < length todos"
    using findIndex_bounds [of "\<lambda>todo. Some (id' todo) = id_opt (payload action)" todos] assms(3)
    by simp
  then have "map id' ?todos' = map id' todos"
    by (rule ids_list_update) (simp add: id_updated)
  moreover have "getItem ?w' (str ''todos'') = Some (JSON_stringify ?todos')"
    by (rule getItem_setItem)
  moreover have "loadTodos ?w' = Inr (map asStored ?todos')"
    by (rule loadTodos_setItem)
  ultimately show ?thesis
    by blast
qed

lemma todoReducer_create_written:
  assumes "loadTodos w = Inr todos" "type' action = CREATE"
    and "content_opt (payload action) = Some text" "text \<noteq> []"
  shows "\<exists>newTodo w'. todoReducer w state action = Inr (state @ [newTodo], w')
           \<and> id' newTodo = uuids w (draws w)
           \<and> getItem w' (str ''todos'') = Some (JSON_stringify (state @ [newTodo]))
           \<and> loadTodos w' = Inr (map asStored (state @ [newTodo]))"
proof -
  let ?new = "\<lparr>id' = uuids w (draws w), content = text, isDone = False,
               dateCreated = DateObject (clock w (ticks w)),
               lastModified = DateObject (clock w (Suc (ticks w)))\<rparr>"
  let ?w' = "setItem (w\<lparr>draws := Suc (draws w), ticks := Suc (Suc (ticks w))\<rparr>)
               (str ''todos'') (JSON_stringify (state @ [?new]))"
  have "todoReducer w state action = Inr (state @ [?new], ?w')"
    using todoReducer_create [OF assms, of state] by (simp add: Let_def)
  moreover have "getItem ?w' (str ''todos'') = Some (JSON_stringify (state @ [?new]))"
    by (rule getItem_setItem)
  moreover have "loadTodos ?w' = Inr (map asStored (state @ [?new]))"
    by (rule loadTodos_setItem)
  moreover have "id' ?new = uuids w (draws w)"
    by simp
  ultimately show ?thesis
    by blast
qed

lemma action_cases:
  obtains (create_noop) "type' action = CREATE"
      "content_opt (payload action) = None \<or> content_opt (payload action) = Some []"
  | (create) c where "type' action = CREATE" "content_opt (payload action) = Some c" "c \<noteq> []"
  | (delete) "type' action = DELETE"
  | (update) "type' action = UPDATE"
  | (other) "type' action \<noteq> CREATE" "type' action \<noteq> DELETE" "type' action \<noteq> UPDATE"
  by (cases "content_opt (payload action)") auto

lemma stored_filter:
  "map asStored todos = todos \<Longrightarrow> map asStored (filter P todos) = filter P todos"
  by (induction todos) auto

lemma stored_append:
  "map asStored (xs @ x # ys) = xs @ x # ys \<Longrightarrow> map asStored (xs @ ys) = xs @ ys"
  by simp

lemma trim_whitespace: "list_all isWhiteSpace v \<Longrightarrow> trim v = []"
proof -
  assume "list_all isWhiteSpace v"
  then have "dropWhile isWhiteSpace v = []"
    by (simp add: list_all_iff)
  then show "trim v = []"
    by (simp only: trim_def rev.simps dropWhile.simps)
qed

lemma todoReducer_consistent:
  assumes "loadTodos w = Inr (map asStored state)"
  shows "\<exists>state' w'. todoReducer w state action = Inr (state', w')
           \<and> loadTodos w' = Inr (map asStored state')
           \<and> ((type' action = CREATE
                  \<and> (\<exists>c. content_opt (payload action) = Some c \<and> c \<noteq> [])
                \<or> type' action = DELETE
                \<or> type' action = UPDATE
                  \<and> id_opt (payload action) \<in> set (map (\<lambda>todo. Some (id' todo)) state))
               \<longrightarrow> getItem w' (str ''todos'') = Some (JSON_stringify state'))"
proof (cases action rule: action_cases)
  case create_noop
  then have "todoReducer w state action = Inr (state, w)"
    using todoReducer_create_noop [OF assms] by blast
  with assms create_noop show ?thesis
    by (auto simp: CREATE_def DELETE_def UPDATE_def)
next
  case (create c)
  then show ?thesis
    using todoReducer_create_written [OF assms, of action c state] by blast
next
  case delete
  let ?filtered = "filter (\<lambda>todo. Some (id' todo) \<noteq> id_opt (payload action)) (map asStored state)"
  let ?w' = "setItem w (str ''todos'') (JSON_stringify ?filtered)"
  have "todoReducer w state action = Inr (?filtered, ?w')"
    using todoReducer_delete [OF assms delete, of state] by (simp add: Let_def)
  moreover have "loadTodos ?w' = Inr (map asStored ?filtered)"
    by (rule loadTodos_setItem)
  moreover have "getItem ?w' (str ''todos'') = Some (JSON_stringify ?filtered)"
    by (rule getItem_setItem)
  ultimately show ?thesis
    by blast
next
  case update
  let ?P = "\<lambda>todo. Some (id' todo) = id_opt (payload action)"
  have found: "(0 \<le> findIndex ?P (map asStored state))
      = (id_opt (payload action) \<in> set (map (\<lambda>todo. Some (id' todo)) state))"
    by (force simp: findIndex_found asStored_def)
  show ?thesis
  proof (cases "0 \<le> findIndex ?P (map asStored state)")
    case True
    then show ?thesis
      using todoReducer_update_ids [OF assms update, of state] by blast
  next
    case False
    then have "\<forall>todo\<in>set (map asStored state). Some (id' todo) \<noteq> id_opt (payload action)"
      by (simp add: findIndex_found)
    then have "todoReducer w state action = Inr (state, w)"
      using todoReducer_update_miss [OF assms update] by blast
    with assms update False found show ?thesis
      by (auto simp: CREATE_def DELETE_def UPDATE_def)
  qed
next
  case other
  then have "todoReducer w state action = Inr (state, w)"
    using todoReducer_other [OF assms] by blast
  with assms other show ?thesis
    by auto
qed

lemma dispatchAll_consistent:
  assumes "loadTodos w = Inr (map asStored state)"
  shows "\<exists>state' w'. dispatchAll w state actions = Inr (state', w')
           \<and> loadTodos w' = Inr (map asStored state')"
  using assms
proof (induction actions arbitrary: w state)
  case Nil
  then show ?case by simp
next
  case (Cons action actions)
  obtain state1 w1 where
    step: "todoReducer w state action = Inr (state1, w1)"
      "loadTodos w1 = Inr (map asStored state1)"
    using todoReducer_consistent [OF Cons.prems, of action] by blast
  show ?case
    using Cons.IH [OF step(2)] step(1) by simp
qed

lemma first_create:
  "todoReducer (browser None) [] (createAction (str ''Buy eggs''))
     = Inr ([fresh],
            setItem ((browser None)\<lparr>draws := 1, ticks := 2\<rparr>) (str ''todos'')
              (JSON_stringify [fresh]))"
proof -
  let ?w = "browser None"
  have "type' (createAction (str ''Buy eggs'')) = CREATE"
    "content_opt (payload (createAction (str ''Buy eggs''))) = Some (str ''Buy eggs'')"
    "str ''Buy eggs'' \<noteq> []"
    by (simp_all add: createAction_def payload_def str_def)
  with loadTodos_browser_empty have "todoReducer ?w [] (createAction (str ''Buy eggs'')) =
     (let newTodo = \<lparr>id' = uuids ?w (draws ?w), content = str ''Buy eggs'', isDone = False,
                      dateCreated = DateObject (clock ?w (ticks ?w)),
                      lastModified = DateObject (clock ?w (Suc (ticks ?w)))\<rparr>
      in Inr ([] @ [newTodo],
              setItem (?w\<lparr>draws := Suc (draws ?w), ticks := Suc (Suc (ticks ?w))\<rparr>)
                (str ''todos'') (JSON_stringify ([] @ [newTodo]))))"
    by (rule todoReducer_create)
  then show ?thesis
    by (simp add: browser_def fresh_def Let_def numeral_2_eq_2 del: JSON_stringify.simps)
qed

section \<open>Writing the list and reading it back\<close>

text \<open>
  C2, as stated: writing a list of records to the persisted text and reading the text
  back gives a list identical to the original. This fails for the list the reducer
  returns after a \<open>CREATE\<close> from the empty list, \<open>[fresh]\<close>: its timestamps are
  \<open>Date\<close> objects, and what is read back holds strings.
\<close>

theorem stringify_parse_changes_dates:
  "JSON_parse (JSON_stringify [fresh]) \<noteq> Inr [fresh]"
proof -
  have "asStored fresh \<noteq> fresh"
    by (simp add: asStored_def fresh_def)
  then show ?thesis
    by (simp add: JSON_parse_stringify del: JSON_stringify.simps)
qed

text \<open>
  C2, amended: reading back what was written gives the records in the same order, with
  the same \<open>id\<close>, \<open>content\<close> and \<open>isDone\<close> and with each timestamp as the string
  written for it (the ISO text of a \<open>Date\<close>, a string as it is). A list in this stored
  form is read back identical.
\<close>

theorem stringify_parse_roundtrip:
  "JSON_parse (JSON_stringify todos) = Inr (map asStored todos)
   \<and> JSON_parse (JSON_stringify (map asStored todos)) = Inr (map asStored todos)"
proof -
  have "map asStored (map asStored todos) = map asStored todos"
    by (simp add: asStored_idem)
  then show ?thesis
    using JSON_parse_stringify [of todos] JSON_parse_stringify [of "map asStored todos"]
    by simp
qed

section \<open>Creating\<close>

text \<open>
  C3, as stated: the record \<open>CREATE\<close> appends has an id different from every id in
  the list and equal timestamps. The reducer takes the id from the generator without
  comparing it to the list and reads the clock once for each timestamp. In the example
  the generator returns the id of the record already present and the clock advances by a
  millisecond between the two readings: the new record has the id of the old one, and
  its two timestamps differ.
\<close>

theorem create_id_and_dates_counterexample:
  "todoReducer ((browser (Some (JSON_stringify [milk])))\<lparr>uuids := \<lambda>n. id' milk\<rparr>) [milk]
      (createAction (str ''Buy eggs''))
   = Inr ([milk] @ [fresh\<lparr>id' := id' milk\<rparr>],
          setItem ((browser (Some (JSON_stringify [milk])))
                     \<lparr>uuids := \<lambda>n. id' milk, draws := 1, ticks := 2\<rparr>)
            (str ''todos'') (JSON_stringify ([milk] @ [fresh\<lparr>id' := id' milk\<rparr>])))
   \<and> id' (fresh\<lparr>id' := id' milk\<rparr>) \<in> set (map id' [milk])
   \<and> dateCreated (fresh\<lparr>id' := id' milk\<rparr>) \<noteq> lastModified (fresh\<lparr>id' := id' milk\<rparr>)"
proof -
  let ?w = "(browser (Some (JSON_stringify [milk])))\<lparr>uuids := \<lambda>n. id' milk\<rparr>"
  have "loadTodos ?w = Inr [milk]"
    using loadTodos_browser [of "[milk]"]
    by (simp add: loadTodos_def getItem_def stored_examples del: JSON_stringify.simps)
  moreover have "type' (createAction (str ''Buy eggs'')) = CREATE"
    "content_opt (payload (createAction (str ''Buy eggs''))) = Some (str ''Buy eggs'')"
    "str ''Buy eggs'' \<noteq> []"
    by (simp_all add: createAction_def payload_def str_def)
  ultimately have "todoReducer ?w [milk] (createAction (str ''Buy eggs'')) =
     (let newTodo = \<lparr>id' = uuids ?w (draws ?w), content = str ''Buy eggs'', isDone = False,
                      dateCreated = DateObject (clock ?w (ticks ?w)),
                      lastModified = DateObject (clock ?w (Suc (ticks ?w)))\<rparr>
      in Inr ([milk] @ [newTodo],
              setItem (?w\<lparr>draws := Suc (draws ?w), ticks := Suc (Suc (ticks ?w))\<rparr>)
                (str ''todos'') (JSON_stringify ([milk] @ [newTodo]))))"
    by (rule todoReducer_create)
  then show ?thesis
    by (simp add: browser_def fresh_def Let_def numeral_2_eq_2 del: JSON_stringify.simps)
qed

text \<open>
  C3, amended: with a readable store and a non-empty content, \<open>CREATE\<close> returns the
  given list with exactly one record appended, and writes that list. The record has the
  given content, \<open>isDone\<close> false, the id the generator returned, and the two
  successive readings of the clock as \<open>dateCreated\<close> and \<open>lastModified\<close>. So its
  id is new to the list whenever the generator's is, and its timestamps are equal
  whenever the clock did not advance between the readings.
\<close>

theorem create_appends_one_record:
  assumes "loadTodos w = Inr todos" "type' action = CREATE"
    and "content_opt (payload action) = Some c" "c \<noteq> []"
  shows "\<exists>newTodo w'. todoReducer w state action = Inr (state @ [newTodo], w')
           \<and> id' newTodo = uuids w (draws w)
           \<and> content newTodo = c
           \<and> isDone newTodo = False
           \<and> dateCreated newTodo = DateObject (clock w (ticks w))
           \<and> lastModified newTodo = DateObject (clock w (Suc (ticks w)))
           \<and> getItem w' (str ''todos'') = Some (JSON_stringify (state @ [newTodo]))
           \<and> (uuids w (draws w) \<notin> set (map id' state) \<longrightarrow> id' newTodo \<notin> set (map id' state))
           \<and> (clock w (Suc (ticks w)) = clock w (ticks w)
                \<longrightarrow> lastModified newTodo = dateCreated newTodo)"
proof -
  let ?new = "\<lparr>id' = uuids w (draws w), content = c, isDone = False,
               dateCreated = DateObject (clock w (ticks w)),
               lastModified = DateObject (clock w (Suc (ticks w)))\<rparr>"
  let ?w' = "setItem (w\<lparr>draws := Suc (draws w), ticks := Suc (Suc (ticks w))\<rparr>)
               (str ''todos'') (JSON_stringify (state @ [?new]))"
  have "todoReducer w state action = Inr (state @ [?new], ?w')"
    using todoReducer_create [OF assms, of state] by (simp add: Let_def)
  moreover have "getItem ?w' (str ''todos'') = Some (JSON_stringify (state @ [?new]))"
    by (rule getItem_setItem)
  ultimately show ?thesis
    by (intro exI [of _ ?new] exI [of _ ?w']) simp
qed

theorem create_appends_one_record_witness:
  "loadTodos (browser (Some (JSON_stringify [milk]))) = Inr [milk]
   \<and> (\<exists>w'. todoReducer (browser (Some (JSON_stringify [milk]))) [milk]
               (createAction (str ''Buy eggs'')) = Inr ([milk, fresh], w')
           \<and> getItem w' (str ''todos'') = Some (JSON_stringify [milk, fresh]))"
proof -
  let ?w = "browser (Some (JSON_stringify [milk]))"
  have h1: "loadTodos ?w = Inr [milk]"
    by (simp add: loadTodos_browser stored_examples del: JSON_stringify.simps)
  have h2: "type' (createAction (str ''Buy eggs'')) = CREATE"
    "content_opt (payload (createAction (str ''Buy eggs''))) = Some (str ''Buy eggs'')"
    "str ''Buy eggs'' \<noteq> []"
    by (simp_all add: createAction_def payload_def str_def)
  obtain newTodo w' where
    r: "todoReducer ?w [milk] (createAction (str ''Buy eggs'')) = Inr ([milk] @ [newTodo], w')"
      "id' newTodo = uuids ?w (draws ?w)" "content newTodo = str ''Buy eggs''"
      "isDone newTodo = False" "dateCreated newTodo = DateObject (clock ?w (ticks ?w))"
      "lastModified newTodo = DateObject (clock ?w (Suc (ticks ?w)))"
      "getItem w' (str ''todos'') = Some (JSON_stringify ([milk] @ [newTodo]))"
    using create_appends_one_record [OF h1 h2, of "[milk]"] by blast
  have "newTodo = fresh"
    using r(2-6) by (simp add: fresh_def browser_def)
  with r(1,7) h1 show ?thesis
    by (simp del: JSON_stringify.simps)
qed

text \<open>
  C4, as stated: a \<open>CREATE\<close> action whose content is empty, absent or only white
  space leaves the list unchanged and writes nothing. The reducer tests the content for
  being empty only: given two spaces it appends a record and writes the list.
\<close>

theorem create_whitespace_counterexample:
  "list_all isWhiteSpace (str ''  '')
   \<and> todoReducer (browser None) [] (createAction (str ''  ''))
     = Inr ([fresh\<lparr>content := str ''  ''\<rparr>],
            setItem ((browser None)\<lparr>draws := 1, ticks := 2\<rparr>) (str ''todos'')
              (JSON_stringify [fresh\<lparr>content := str ''  ''\<rparr>]))"
proof -
  let ?w = "browser None"
  have "type' (createAction (str ''  '')) = CREATE"
    "content_opt (payload (createAction (str ''  ''))) = Some (str ''  '')"
    "str ''  '' \<noteq> []"
    by (simp_all add: createAction_def payload_def str_def)
  with loadTodos_browser_empty have "todoReducer ?w [] (createAction (str ''  '')) =
     (let newTodo = \<lparr>id' = uuids ?w (draws ?w), content = str ''  '', isDone = False,
                      dateCreated = DateObject (clock ?w (ticks ?w)),
                      lastModified = DateObject (clock ?w (Suc (ticks ?w)))\<rparr>
      in Inr ([] @ [newTodo],
              setItem (?w\<lparr>draws := Suc (draws ?w), ticks := Suc (Suc (ticks ?w))\<rparr>)
                (str ''todos'') (JSON_stringify ([] @ [newTodo]))))"
    by (rule todoReducer_create)
  moreover have "list_all isWhiteSpace (str ''  '')"
    by (simp add: str_def isWhiteSpace_def)
  ultimately show ?thesis
    by (simp add: browser_def fresh_def Let_def numeral_2_eq_2 del: JSON_stringify.simps)
qed

text \<open>
  C4, amended: with a readable store, a \<open>CREATE\<close> action whose content is empty or
  absent returns the given list and leaves the environment as it was. White space is
  removed by the form handler: on an input of white space only, \<open>handleSubmit\<close>
  dispatches nothing and leaves list, environment and input as they were.
\<close>

theorem create_without_content_is_noop:
  assumes "loadTodos w = Inr todos" "type' action = CREATE"
    and "content_opt (payload action) = None \<or> content_opt (payload action) = Some []"
    and "list_all isWhiteSpace v"
  shows "todoReducer w state action = Inr (state, w)
         \<and> handleSubmit w state (Some v) = Inr (state, w, Some v)"
proof
  show "todoReducer w state action = Inr (state, w)"
    using assms(1,2,3) by (rule todoReducer_create_noop)
  show "handleSubmit w state (Some v) = Inr (state, w, Some v)"
    using trim_whitespace [OF assms(4)] by (simp add: handleSubmit_def)
qed

theorem create_without_content_is_noop_witness:
  "loadTodos (browser (Some (JSON_stringify [milk]))) = Inr [milk]
   \<and> list_all isWhiteSpace (str ''  '')
   \<and> todoReducer (browser (Some (JSON_stringify [milk]))) [milk] (createAction [])
       = Inr ([milk], browser (Some (JSON_stringify [milk])))
   \<and> handleSubmit (browser (Some (JSON_stringify [milk]))) [milk] (Some (str ''  ''))
       = Inr ([milk], browser (Some (JSON_stringify [milk])), Some (str ''  ''))"
proof -
  let ?w = "browser (Some (JSON_stringify [milk]))"
  have h1: "loadTodos ?w = Inr [milk]"
    by (simp add: loadTodos_browser stored_examples del: JSON_stringify.simps)
  have h2: "type' (createAction []) = CREATE"
    by (simp add: createAction_def)
  have h3: "content_opt (payload (createAction [])) = None \<or> content_opt (payload (createAction [])) = Some []"
    by (simp add: createAction_def payload_def)
  have h4: "list_all isWhiteSpace (str ''  '')"
    by (simp add: str_def isWhiteSpace_def)
  show ?thesis
    using h1 h4 create_without_content_is_noop [OF h1 h2 h3 h4, of "[milk]"] by simp
qed

section \<open>Updating\<close>

text \<open>
  C5, as stated: \<open>UPDATE\<close> always sets \<open>lastModified\<close> to a time later than the
  previous one. The reducer sets it to the reading of the clock, whatever the previous
  value. In the example the stored \<open>lastModified\<close> is the ISO text of the instant
  1700000000000 and the clock reads that same instant: the new value is not later.
\<close>

theorem update_same_millisecond_counterexample:
  "lastModified milk = DateString (toISOString 1700000000000)
   \<and> todoReducer (browser (Some (JSON_stringify [milk]))) [milk]
        (updateTodo (id' milk)
           \<lparr>id_opt = None, content_opt = None, isDone_opt = Some True,
            dateCreated_opt = None, lastModified_opt = None\<rparr>)
     = Inr ([milk\<lparr>isDone := True, lastModified := DateObject 1700000000000\<rparr>],
            setItem ((browser (Some (JSON_stringify [milk])))\<lparr>ticks := 1\<rparr>) (str ''todos'')
              (JSON_stringify [milk\<lparr>isDone := True, lastModified := DateObject 1700000000000\<rparr>]))"
proof -
  let ?w = "browser (Some (JSON_stringify [milk]))"
  let ?a = "updateTodo (id' milk)
           \<lparr>id_opt = None, content_opt = None, isDone_opt = Some True,
            dateCreated_opt = None, lastModified_opt = None\<rparr>"
  have iso: "toISOString 1700000000000 = str ''2023-11-14T22:13:20.000Z''"
    by code_simp
  have h1: "loadTodos ?w = Inr [milk]"
    by (simp add: loadTodos_browser stored_examples del: JSON_stringify.simps)
  have h2: "type' ?a = UPDATE"
    by (simp add: updateTodo_def)
  have h3: "0 \<le> findIndex (\<lambda>todo. Some (id' todo) = id_opt (payload ?a)) [milk]"
    by (simp add: updateTodo_def payload_def)
  have "todoReducer ?w [milk] ?a =
     (let k = nat (findIndex (\<lambda>todo. Some (id' todo) = id_opt (payload ?a)) [milk]);
          todos' = [milk][k := updated ([milk] ! k) (payload ?a) (DateObject (clock ?w (ticks ?w)))]
      in Inr (todos', setItem (?w\<lparr>ticks := Suc (ticks ?w)\<rparr>) (str ''todos'') (JSON_stringify todos')))"
    using h1 h2 h3 by (rule todoReducer_update_hit)
  then show ?thesis
    using iso
    by (simp add: updateTodo_def payload_def updated_def browser_def Let_def milk_def
             del: JSON_stringify.simps)
qed

text \<open>
  C5, amended: with a readable store that holds a record of the given id, \<open>UPDATE\<close>
  changes the first such record and no other, returns the stored list with that change
  and writes it. The record's content is replaced only by a non-empty content, its
  \<open>isDone\<close> only by a boolean that is given, and its \<open>lastModified\<close> becomes the
  reading of the clock taken by the call, whichever fields were given; \<open>id\<close> and
  \<open>dateCreated\<close> stay. The new \<open>lastModified\<close> is later than the stored one
  whenever the clock reads later than the instant stored.
\<close>

theorem update_changes_given_fields:
  assumes "loadTodos w = Inr todos" "type' action = UPDATE"
    and "id_opt (payload action) = Some i" "i \<in> set (map id' todos)"
  shows "\<exists>k todos' w'.
           k < length todos \<and> id' (todos ! k) = i \<and> (\<forall>j<k. id' (todos ! j) \<noteq> i)
           \<and> todos' = todos[k := (todos ! k)
                \<lparr>content := (case content_opt (payload action) of
                                None \<Rightarrow> content (todos ! k)
                              | Some c \<Rightarrow> if c = [] then content (todos ! k) else c),
                 isDone := (case isDone_opt (payload action) of
                              None \<Rightarrow> isDone (todos ! k)
                            | Some flag \<Rightarrow> flag),
                 lastModified := DateObject (clock w (ticks w))\<rparr>]
           \<and> todoReducer w state action = Inr (todos', w')
           \<and> getItem w' (str ''todos'') = Some (JSON_stringify todos')
           \<and> (\<forall>t. lastModified (todos ! k) = DateString (toISOString t) \<and> t < clock w (ticks w)
                \<longrightarrow> (\<exists>t'. lastModified (todos' ! k) = DateObject t' \<and> t < t'))"
proof -
  let ?P = "\<lambda>todo. Some (id' todo) = id_opt (payload action)"
  let ?k = "nat (findIndex ?P todos)"
  let ?todos' = "todos[?k := updated (todos ! ?k) (payload action) (DateObject (clock w (ticks w)))]"
  let ?w' = "setItem (w\<lparr>ticks := Suc (ticks w)\<rparr>) (str ''todos'') (JSON_stringify ?todos')"
  have found: "0 \<le> findIndex ?P todos"
    using assms(3,4) by (auto simp: findIndex_found)
  have "todoReducer w state action = Inr (?todos', ?w')"
    using todoReducer_update_hit [OF assms(1,2) found, of state] by (simp add: Let_def)
  moreover have k: "?k < length todos"
    using findIndex_bounds [of ?P todos] found by simp
  moreover have "id' (todos ! ?k) = i" "\<forall>j<?k. id' (todos ! j) \<noteq> i"
    using findIndex_hit [OF found] assms(3) by simp_all
  moreover have "getItem ?w' (str ''todos'') = Some (JSON_stringify ?todos')"
    by (rule getItem_setItem)
  moreover have "lastModified (?todos' ! ?k) = DateObject (clock w (ticks w))"
    using k by (simp add: updated_def)
  then have "\<forall>t. lastModified (todos ! ?k) = DateString (toISOString t) \<and> t < clock w (ticks w)
                \<longrightarrow> (\<exists>t'. lastModified (?todos' ! ?k) = DateObject t' \<and> t < t')"
    by simp
  ultimately show ?thesis
    unfolding updated_def by blast
qed

theorem update_changes_given_fields_witness:
  "loadTodos (browser (Some (JSON_stringify [milk, eggs]))) = Inr [milk, eggs]
   \<and> lastModified eggs = DateString (toISOString 1699999920000)
   \<and> (\<exists>w'. todoReducer (browser (Some (JSON_stringify [milk, eggs]))) [milk, eggs]
               (updateTodo (id' eggs)
                  \<lparr>id_opt = None, content_opt = Some [], isDone_opt = Some False,
                   dateCreated_opt = None, lastModified_opt = None\<rparr>)
             = Inr ([milk, eggs\<lparr>isDone := False, lastModified := DateObject 1700000000000\<rparr>], w')
           \<and> getItem w' (str ''todos'')
             = Some (JSON_stringify
                  [milk, eggs\<lparr>isDone := False, lastModified := DateObject 1700000000000\<rparr>]))"
proof -
  let ?w = "browser (Some (JSON_stringify [milk, eggs]))"
  let ?a = "updateTodo (id' eggs)
                  \<lparr>id_opt = None, content_opt = Some [], isDone_opt = Some False,
                   dateCreated_opt = None, lastModified_opt = None\<rparr>"
  have iso: "toISOString 1699999920000 = str ''2023-11-14T22:12:00.000Z''"
    by code_simp
  have h1: "loadTodos ?w = Inr [milk, eggs]"
    by (simp add: loadTodos_browser stored_examples del: JSON_stringify.simps)
  have h2: "type' ?a = UPDATE" "id_opt (payload ?a) = Some (id' eggs)"
    by (simp_all add: updateTodo_def payload_def)
  have h3: "id' eggs \<in> set (map id' [milk, eggs])"
    by simp
  have p: "content_opt (payload ?a) = Some []" "isDone_opt (payload ?a) = Some False"
    by (simp_all add: updateTodo_def payload_def)
  obtain k todos' w' where
    r: "k < length [milk, eggs]" "id' ([milk, eggs] ! k) = id' eggs"
      "todos' = [milk, eggs][k := ([milk, eggs] ! k)
                \<lparr>content := (case content_opt (payload ?a) of
                                None \<Rightarrow> content ([milk, eggs] ! k)
                              | Some c \<Rightarrow> if c = [] then content ([milk, eggs] ! k) else c),
                 isDone := (case isDone_opt (payload ?a) of
                              None \<Rightarrow> isDone ([milk, eggs] ! k)
                            | Some flag \<Rightarrow> flag),
                 lastModified := DateObject (clock ?w (ticks ?w))\<rparr>]"
      "todoReducer ?w [milk, eggs] ?a = Inr (todos', w')"
      "getItem w' (str ''todos'') = Some (JSON_stringify todos')"
    using update_changes_given_fields [OF h1 h2 h3, of "[milk, eggs]"] by blast
  have "k = 1"
    using r(1,2) ids_examples by (cases k) auto
  then have "todos' = [milk, eggs\<lparr>isDone := False, lastModified := DateObject 1700000000000\<rparr>]"
    using r(3) unfolding p by (simp add: browser_def)
  moreover have "lastModified eggs = DateString (toISOString 1699999920000)"
    using iso by (simp add: eggs_def)
  ultimately show ?thesis
    using r(4,5) h1 by (simp del: JSON_stringify.simps)
qed

text \<open>
  C6. When no record of the stored list has the id of an \<open>UPDATE\<close> action, the
  reducer returns the state it was given, not the list it read from storage, leaves the
  environment as it was and raises no error. In the example the state given differs from
  the stored list.
\<close>

theorem update_unknown_id_returns_state:
  assumes "loadTodos w = Inr todos" "type' action = UPDATE"
    and "\<forall>todo\<in>set todos. Some (id' todo) \<noteq> id_opt (payload action)"
  shows "todoReducer w state action = Inr (state, w)"
  using assms by (rule todoReducer_update_miss)

theorem update_unknown_id_returns_state_witness:
  "loadTodos (browser (Some (JSON_stringify [milk]))) = Inr [milk]
   \<and> todoReducer (browser (Some (JSON_stringify [milk]))) [milk, eggs]
        (updateTodo (id' eggs)
           \<lparr>id_opt = None, content_opt = None, isDone_opt = Some False,
            dateCreated_opt = None, lastModified_opt = None\<rparr>)
      = Inr ([milk, eggs], browser (Some (JSON_stringify [milk])))"
proof -
  let ?w = "browser (Some (JSON_stringify [milk]))"
  let ?a = "updateTodo (id' eggs)
           \<lparr>id_opt = None, content_opt = None, isDone_opt = Some False,
            dateCreated_opt = None, lastModified_opt = None\<rparr>"
  have h1: "loadTodos ?w = Inr [milk]"
    by (simp add: loadTodos_browser stored_examples del: JSON_stringify.simps)
  have h2: "type' ?a = UPDATE"
    by (simp add: updateTodo_def)
  have h3: "\<forall>todo\<in>set [milk]. Some (id' todo) \<noteq> id_opt (payload ?a)"
    using ids_examples by (simp add: updateTodo_def payload_def)
  show ?thesis
    using h1 update_unknown_id_returns_state [OF h1 h2 h3, of "[milk, eggs]"] by simp
qed

section \<open>Deleting\<close>

text \<open>
  C7. When the stored list holds exactly one record with the given id, \<open>DELETE\<close>
  returns that list without the record: the records before it and after it are
  unchanged and keep their order. The result is also what is written to storage.
\<close>

theorem delete_removes_exactly_that_record:
  assumes "loadTodos w = Inr (before @ todo # after)"
    and "id' todo = i"
    and "i \<notin> set (map id' before)" "i \<notin> set (map id' after)"
    and "type' action = DELETE" "id_opt (payload action) = Some i"
  shows "\<exists>w'. todoReducer w state action = Inr (before @ after, w')
           \<and> getItem w' (str ''todos'') = Some (JSON_stringify (before @ after))
           \<and> loadTodos w' = Inr (before @ after)"
proof -
  have "filter (\<lambda>t. Some (id' t) \<noteq> Some i) before = before"
    "filter (\<lambda>t. Some (id' t) \<noteq> Some i) after = after"
    using assms(3,4) by (auto simp: filter_id_conv)
  then have keep: "filter (\<lambda>t. Some (id' t) \<noteq> Some i) (before @ todo # after) = before @ after"
    using assms(2) by simp
  let ?w' = "setItem w (str ''todos'') (JSON_stringify (before @ after))"
  have "todoReducer w state action = Inr (before @ after, ?w')"
    using todoReducer_delete [OF assms(1) assms(5), of state]
    unfolding assms(6) keep Let_def .
  moreover have "map asStored (before @ after) = before @ after"
    using loadTodos_stored [OF assms(1)] by (rule stored_append)
  then have "loadTodos ?w' = Inr (before @ after)"
    by (simp add: loadTodos_setItem)
  moreover have "getItem ?w' (str ''todos'') = Some (JSON_stringify (before @ after))"
    by (rule getItem_setItem)
  ultimately show ?thesis
    by blast
qed

theorem delete_removes_exactly_that_record_witness:
  "loadTodos (browser (Some (JSON_stringify [milk, eggs]))) = Inr ([milk] @ eggs # [])
   \<and> (\<exists>w'. todoReducer (browser (Some (JSON_stringify [milk, eggs]))) [milk, eggs]
               (deleteTodo (id' eggs)) = Inr ([milk], w')
           \<and> getItem w' (str ''todos'') = Some (JSON_stringify [milk])
           \<and> loadTodos w' = Inr [milk])"
proof -
  let ?w = "browser (Some (JSON_stringify [milk, eggs]))"
  have h1: "loadTodos ?w = Inr ([milk] @ eggs # [])"
    by (simp add: loadTodos_browser stored_examples del: JSON_stringify.simps)
  have h2: "id' eggs \<notin> set (map id' [milk])" "id' eggs \<notin> set (map id' [])"
    using ids_examples by simp_all
  have h3: "type' (deleteTodo (id' eggs)) = DELETE"
    "id_opt (payload (deleteTodo (id' eggs))) = Some (id' eggs)"
    by (simp_all add: deleteTodo_def payload_def)
  show ?thesis
    using h1 delete_removes_exactly_that_record [OF h1 refl h2 h3, of "[milk, eggs]"]
    by simp
qed

text \<open>
  C8. When no record of the stored list has the given id, \<open>DELETE\<close> returns the
  stored list as it is, the same records in the same order, and raises no error.
\<close>

theorem delete_unknown_id_keeps_list:
  assumes "loadTodos w = Inr todos" "type' action = DELETE"
    and "\<forall>todo\<in>set todos. Some (id' todo) \<noteq> id_opt (payload action)"
  shows "\<exists>w'. todoReducer w state action = Inr (todos, w') \<and> loadTodos w' = Inr todos"
proof -
  have "filter (\<lambda>todo. Some (id' todo) \<noteq> id_opt (payload action)) todos = todos"
    using assms(3) by (simp add: filter_id_conv)
  then show ?thesis
    using todoReducer_delete [OF assms(1,2), of state] loadTodos_stored [OF assms(1)]
    by (simp add: loadTodos_setItem)
qed

theorem delete_unknown_id_keeps_list_witness:
  "loadTodos (browser (Some (JSON_stringify [milk]))) = Inr [milk]
   \<and> (\<exists>w'. todoReducer (browser (Some (JSON_stringify [milk]))) [milk]
               (deleteTodo (id' eggs)) = Inr ([milk], w')
           \<and> loadTodos w' = Inr [milk])"
proof -
  let ?w = "browser (Some (JSON_stringify [milk]))"
  have h1: "loadTodos ?w = Inr [milk]"
    by (simp add: loadTodos_browser stored_examples del: JSON_stringify.simps)
  have h2: "type' (deleteTodo (id' eggs)) = DELETE"
    by (simp add: deleteTodo_def)
  have h3: "\<forall>todo\<in>set [milk]. Some (id' todo) \<noteq> id_opt (payload (deleteTodo (id' eggs)))"
    using ids_examples by (simp add: deleteTodo_def payload_def)
  show ?thesis
    using h1 delete_unknown_id_keeps_list [OF h1 h2 h3, of "[milk]"] by simp
qed

text \<open>
  C9. \<open>DELETE\<close> for the same id a second time changes nothing: it returns the list
  the first application returned and leaves the environment as the first left it.
\<close>

theorem delete_is_idempotent:
  assumes "loadTodos w = Inr todos" "type' action = DELETE"
  shows "\<exists>state' w'. todoReducer w state action = Inr (state', w')
           \<and> todoReducer w' state' action = Inr (state', w')"
proof -
  let ?keep = "\<lambda>todo. Some (id' todo) \<noteq> id_opt (payload action)"
  let ?filtered = "filter ?keep todos"
  let ?w' = "setItem w (str ''todos'') (JSON_stringify ?filtered)"
  have first: "todoReducer w state action = Inr (?filtered, ?w')"
    using todoReducer_delete [OF assms, of state] by (simp add: Let_def)
  have "map asStored ?filtered = ?filtered"
    using loadTodos_stored [OF assms(1)] by (rule stored_filter)
  then have "loadTodos ?w' = Inr ?filtered"
    by (simp add: loadTodos_setItem)
  then have "todoReducer ?w' ?filtered action = Inr (?filtered, ?w')"
    using todoReducer_delete [of ?w' ?filtered action ?filtered] assms(2)
    by (simp add: Let_def setItem_twice)
  with first show ?thesis
    by blast
qed

theorem delete_is_idempotent_witness:
  "loadTodos (browser (Some (JSON_stringify [milk, eggs]))) = Inr [milk, eggs]
   \<and> (\<exists>state' w'.
         todoReducer (browser (Some (JSON_stringify [milk, eggs]))) [milk, eggs]
           (deleteTodo (id' milk)) = Inr (state', w')
         \<and> todoReducer w' state' (deleteTodo (id' milk)) = Inr (state', w'))"
proof -
  let ?w = "browser (Some (JSON_stringify [milk, eggs]))"
  have h1: "loadTodos ?w = Inr [milk, eggs]"
    by (simp add: loadTodos_browser stored_examples del: JSON_stringify.simps)
  have h2: "type' (deleteTodo (id' milk)) = DELETE"
    by (simp add: deleteTodo_def)
  show ?thesis
    using h1 delete_is_idempotent [OF h1 h2, of "[milk, eggs]"] by simp
qed

section \<open>Invariants\<close>

text \<open>
  C10. When the ids of the given list are pairwise distinct, those of the stored list
  are too, and the id the generator returns next is not in the given list, then after
  any action, of a known type or not, the ids of the returned list and of the stored
  list are again pairwise distinct.
\<close>

theorem ids_stay_unique:
  assumes "loadTodos w = Inr todos"
    and "distinct (map id' state)" "distinct (map id' todos)"
    and "uuids w (draws w) \<notin> set (map id' state)"
  shows "\<exists>state' w' todos'. todoReducer w state action = Inr (state', w')
           \<and> distinct (map id' state')
           \<and> loadTodos w' = Inr todos' \<and> distinct (map id' todos')"
proof (cases action rule: action_cases)
  case create_noop
  then have "todoReducer w state action = Inr (state, w)"
    using todoReducer_create_noop [OF assms(1)] by blast
  with assms show ?thesis
    by blast
next
  case (create c)
  then obtain newTodo w' where
    new: "todoReducer w state action = Inr (state @ [newTodo], w')"
      "id' newTodo = uuids w (draws w)"
      "loadTodos w' = Inr (map asStored (state @ [newTodo]))"
    using todoReducer_create_written [OF assms(1), of action c state] by blast
  have "distinct (map id' (state @ [newTodo]))"
    using assms(2,4) new(2) by simp
  moreover from this have "distinct (map id' (map asStored (state @ [newTodo])))"
    by (simp only: ids_asStored)
  ultimately show ?thesis
    using new(1,3) by blast
next
  case delete
  let ?filtered = "filter (\<lambda>todo. Some (id' todo) \<noteq> id_opt (payload action)) todos"
  let ?w' = "setItem w (str ''todos'') (JSON_stringify ?filtered)"
  have "todoReducer w state action = Inr (?filtered, ?w')"
    using todoReducer_delete [OF assms(1) delete, of state] by (simp add: Let_def)
  moreover have "distinct (map id' ?filtered)"
    using assms(3) by (simp add: distinct_map_filter)
  moreover have "loadTodos ?w' = Inr (map asStored ?filtered)"
    by (rule loadTodos_setItem)
  moreover have "distinct (map id' (map asStored ?filtered))"
    using \<open>distinct (map id' ?filtered)\<close> by (simp only: ids_asStored)
  ultimately show ?thesis
    by blast
next
  case update
  show ?thesis
  proof (cases "0 \<le> findIndex (\<lambda>todo. Some (id' todo) = id_opt (payload action)) todos")
    case True
    then obtain todos' w' where
      upd: "todoReducer w state action = Inr (todos', w')"
        "loadTodos w' = Inr (map asStored todos')" "map id' todos' = map id' todos"
      using todoReducer_update_ids [OF assms(1) update, of state] by blast
    have "distinct (map id' todos')"
      using assms(3) upd(3) by simp
    moreover from this have "distinct (map id' (map asStored todos'))"
      by (simp only: ids_asStored)
    ultimately show ?thesis
      using upd(1,2) by blast
  next
    case False
    then have "\<forall>todo\<in>set todos. Some (id' todo) \<noteq> id_opt (payload action)"
      by (simp add: findIndex_found)
    then have "todoReducer w state action = Inr (state, w)"
      using todoReducer_update_miss [OF assms(1) update] by blast
    with assms show ?thesis
      by blast
  qed
next
  case other
  then have "todoReducer w state action = Inr (state, w)"
    using todoReducer_other [OF assms(1)] by blast
  with assms show ?thesis
    by blast
qed

theorem ids_stay_unique_witness:
  "loadTodos (browser (Some (JSON_stringify [milk]))) = Inr [milk]
   \<and> distinct (map id' [milk, eggs])
   \<and> uuids (browser (Some (JSON_stringify [milk])))
        (draws (browser (Some (JSON_stringify [milk])))) \<notin> set (map id' [milk, eggs])
   \<and> (\<exists>state' w' todos'.
         todoReducer (browser (Some (JSON_stringify [milk]))) [milk, eggs]
           (createAction (str ''Buy bread'')) = Inr (state', w')
         \<and> distinct (map id' state')
         \<and> loadTodos w' = Inr todos' \<and> distinct (map id' todos'))"
proof -
  let ?w = "browser (Some (JSON_stringify [milk]))"
  have h1: "loadTodos ?w = Inr [milk]"
    by (simp add: loadTodos_browser stored_examples del: JSON_stringify.simps)
  have h2: "distinct (map id' [milk, eggs])"
    using ids_examples by simp
  have h3: "distinct (map id' [milk])"
    by simp
  have h4: "uuids ?w (draws ?w) \<notin> set (map id' [milk, eggs])"
    by (simp add: browser_def milk_def eggs_def str_def)
  show ?thesis
    using h1 h2 h4 ids_stay_unique [OF h1 h2 h3 h4, of "createAction (str ''Buy bread'')"]
    by blast
qed

text \<open>
  C1. Start from a state equal to the stored list and dispatch any sequence of actions,
  then one more. After it the stored text reads back as the returned list in its stored
  form, and when the action is a mutation (\<open>CREATE\<close> with a non-empty content,
  \<open>DELETE\<close>, or \<open>UPDATE\<close> with an id in the list) the stored text is exactly
  \<open>JSON_stringify\<close> of the returned list.
\<close>

theorem write_through:
  assumes "loadTodos w = Inr state"
  shows "\<exists>state1 w1 state2 w2.
           dispatchAll w state actions = Inr (state1, w1)
           \<and> todoReducer w1 state1 action = Inr (state2, w2)
           \<and> loadTodos w2 = Inr (map asStored state2)
           \<and> ((type' action = CREATE
                  \<and> (\<exists>c. content_opt (payload action) = Some c \<and> c \<noteq> [])
                \<or> type' action = DELETE
                \<or> type' action = UPDATE
                  \<and> id_opt (payload action) \<in> set (map (\<lambda>todo. Some (id' todo)) state1))
               \<longrightarrow> getItem w2 (str ''todos'') = Some (JSON_stringify state2))"
proof -
  have "loadTodos w = Inr (map asStored state)"
    using assms loadTodos_stored [OF assms] by simp
  then obtain state1 w1 where
    run: "dispatchAll w state actions = Inr (state1, w1)"
      "loadTodos w1 = Inr (map asStored state1)"
    using dispatchAll_consistent by blast
  show ?thesis
    using todoReducer_consistent [OF run(2), of action] run(1) by blast
qed

theorem write_through_witness:
  "loadTodos (browser None) = Inr []
   \<and> (\<exists>w1 state2 w2.
         dispatchAll (browser None) [] [createAction (str ''Buy eggs'')] = Inr ([fresh], w1)
         \<and> todoReducer w1 [fresh]
             (updateTodo (id' fresh)
                \<lparr>id_opt = None, content_opt = None, isDone_opt = Some True,
                 dateCreated_opt = None, lastModified_opt = None\<rparr>) = Inr (state2, w2)
         \<and> loadTodos w2 = Inr (map asStored state2)
         \<and> getItem w2 (str ''todos'') = Some (JSON_stringify state2))"
proof -
  let ?a = "updateTodo (id' fresh)
                \<lparr>id_opt = None, content_opt = None, isDone_opt = Some True,
                 dateCreated_opt = None, lastModified_opt = None\<rparr>"
  have a: "type' ?a = UPDATE" "id_opt (payload ?a) = Some (id' fresh)"
    by (simp_all add: updateTodo_def payload_def)
  obtain state1 w1 state2 w2 where
    r: "dispatchAll (browser None) [] [createAction (str ''Buy eggs'')] = Inr (state1, w1)"
      "todoReducer w1 state1 ?a = Inr (state2, w2)"
      "loadTodos w2 = Inr (map asStored state2)"
      "type' ?a = UPDATE \<and> id_opt (payload ?a) \<in> set (map (\<lambda>todo. Some (id' todo)) state1)
         \<longrightarrow> getItem w2 (str ''todos'') = Some (JSON_stringify state2)"
    using write_through [OF loadTodos_browser_empty, of "[createAction (str ''Buy eggs'')]" ?a]
    by blast
  have "state1 = [fresh]"
    using r(1) by (simp add: first_create del: JSON_stringify.simps)
  with r a show ?thesis
    using loadTodos_browser_empty by (simp del: JSON_stringify.simps)
qed

end
